theory Spec2Isabelle
  imports Main "HOL-Library.Word"
begin

section \<open>Data model\<close>

text \<open>
  The simulator's \<^verbatim>\<open>CryptoManagerKmip\<close> (second part of \<^verbatim>\<open>manager_kmip.go\<close>) keeps
  the registered key-provider clusters in the slice \<^verbatim>\<open>KmipServers\<close> and the generated keys
  in the map \<^verbatim>\<open>keyIDToProviderID\<close>. The struct declarations live in \<^verbatim>\<open>vim25/types\<close>;
  only the fields that the code reads or writes are kept here.
  \<^verbatim>\<open>KeyProviderId{Id string}\<close> is flattened to its single string field.
\<close>

datatype ManagedObjectReference = ManagedObjectReference (moType: string) (moValue: string)

record KmipServerInfo =
  Name :: string
  Address :: string
  Port :: "32 word"

record KmipClusterInfo =
  ClusterId :: string
  Servers :: "KmipServerInfo list"
  UseAsDefault :: bool
  ManagementType :: string
  UseAsEntityDefault :: "ManagedObjectReference list"

record CryptoManagerKmip =
  KmipServers :: "KmipClusterInfo list"
  keyIDToProviderID :: "string \<rightharpoonup> string"

text \<open>Every fault of the simulator is \<^verbatim>\<open>Fault(msg, &types.RuntimeFault{})\<close>; the message
  tells the kinds apart.\<close>

datatype fault = Fault string

definition InvalidClusterID :: fault where
  "InvalidClusterID = Fault ''Invalid cluster ID''"

definition InvalidServerName :: fault where
  "InvalidServerName = Fault ''Invalid server name''"

definition AlreadyRegistered :: fault where
  "AlreadyRegistered = Fault ''Already registered''"

definition NoDefaultProvider :: fault where
  "NoDefaultProvider = Fault ''No default provider''"

definition NativeProviderUnsupported :: fault where
  "NativeProviderUnsupported = Fault ''Cannot generate keys with native key provider''"

text \<open>\<^verbatim>\<open>slices.Delete(s, i, j)\<close> removes \<^verbatim>\<open>s[i:j]\<close>. Every call below passes
  \<^verbatim>\<open>x, x+1\<close> with \<^verbatim>\<open>0 <= x < len(s)\<close>, where Go does not panic.\<close>

definition slices_Delete :: "'a list \<Rightarrow> nat \<Rightarrow> nat \<Rightarrow> 'a list" where
  "slices_Delete s i j = take i s @ drop j s"

section \<open>SetDefaultKmsCluster and MarkDefault\<close>

text \<open>\<^verbatim>\<open>req.ClusterId != nil && req.ClusterId.Id != ""\<close>\<close>

definition hasClusterId :: "string option \<Rightarrow> bool" where
  "hasClusterId cid = (case cid of None \<Rightarrow> False | Some i \<Rightarrow> i \<noteq> '''')"

text \<open>The search loop of the set branch: \<^verbatim>\<open>found\<close> becomes true at the first equal entry.\<close>

fun entityFound :: "ManagedObjectReference \<Rightarrow> ManagedObjectReference list \<Rightarrow> bool" where
  "entityFound e [] = False"
| "entityFound e (y # ys) = (if e = y then True else entityFound e ys)"

text \<open>The search loop of the unset branch: \<^verbatim>\<open>x\<close> starts at -1 and becomes the first
  index \<^verbatim>\<open>j\<close> with an equal entry.\<close>

fun entityIndex :: "ManagedObjectReference \<Rightarrow> ManagedObjectReference list \<Rightarrow> nat \<Rightarrow> int" where
  "entityIndex e [] j = -1"
| "entityIndex e (y # ys) j = (if e = y then int j else entityIndex e ys (Suc j))"

text \<open>One iteration of the loop over \<^verbatim>\<open>m.KmipServers\<close>: the cluster as it is left in the
  slice, and the value of \<^verbatim>\<open>validClusterID\<close> after the iteration.\<close>

definition setDefaultStep ::
  "string option \<Rightarrow> ManagedObjectReference option \<Rightarrow> KmipClusterInfo \<Rightarrow> bool
     \<Rightarrow> KmipClusterInfo \<times> bool" where
  "setDefaultStep cid entity c validClusterID =
     (if hasClusterId cid then
        (if Some (ClusterId c) \<noteq> cid then
           (c\<lparr>UseAsDefault := False, UseAsEntityDefault := []\<rparr>, validClusterID)
         else
           (case entity of
              None \<Rightarrow> (c\<lparr>UseAsDefault := True\<rparr>, True)
            | Some e \<Rightarrow>
                (if \<not> entityFound e (UseAsEntityDefault c)
                 then (c\<lparr>UseAsEntityDefault := UseAsEntityDefault c @ [e]\<rparr>, True)
                 else (c, True))))
      else
        (case entity of
           Some e \<Rightarrow>
             (let x = entityIndex e (UseAsEntityDefault c) 0 in
              if x \<ge> 0
              then (c\<lparr>UseAsEntityDefault :=
                        slices_Delete (UseAsEntityDefault c) (nat x) (nat x + 1)\<rparr>,
                    validClusterID)
              else (c, validClusterID))
         | None \<Rightarrow> (c\<lparr>UseAsDefault := False\<rparr>, validClusterID)))"

fun setDefaultLoop ::
  "string option \<Rightarrow> ManagedObjectReference option \<Rightarrow> KmipClusterInfo list \<Rightarrow> bool
     \<Rightarrow> KmipClusterInfo list \<times> bool" where
  "setDefaultLoop cid entity [] validClusterID = ([], validClusterID)"
| "setDefaultLoop cid entity (c # cs) validClusterID =
     (let (c', v) = setDefaultStep cid entity c validClusterID;
          (cs', v') = setDefaultLoop cid entity cs v
      in (c' # cs', v'))"

definition SetDefaultKmsCluster ::
  "CryptoManagerKmip \<Rightarrow> string option \<Rightarrow> ManagedObjectReference option
     \<Rightarrow> (fault + unit) \<times> CryptoManagerKmip" where
  "SetDefaultKmsCluster m cid entity =
     (let (cs, validClusterID) = setDefaultLoop cid entity (KmipServers m) False;
          m' = m\<lparr>KmipServers := cs\<rparr>
      in if hasClusterId cid \<and> \<not> validClusterID
         then (Inl InvalidClusterID, m')
         else (Inr (), m'))"

text \<open>The simulator's \<^verbatim>\<open>MarkDefault\<close> always builds a non-nil \<^verbatim>\<open>ClusterId\<close> and leaves
  \<^verbatim>\<open>Entity\<close> nil.\<close>

definition MarkDefault :: "CryptoManagerKmip \<Rightarrow> string \<Rightarrow> (fault + unit) \<times> CryptoManagerKmip" where
  "MarkDefault m clusterId = SetDefaultKmsCluster m (Some clusterId) None"

text \<open>The client methods \<^verbatim>\<open>ManagerKmip.MarkDefault\<close> and
  \<^verbatim>\<open>ManagerKmip.SetDefaultKmsClusterId\<close> build the request and return the fault, if any.
  The latter sets \<^verbatim>\<open>req.ClusterId\<close> only for a non-empty \<^verbatim>\<open>providerID\<close>.\<close>

definition ManagerKmip_MarkDefault ::
  "CryptoManagerKmip \<Rightarrow> string \<Rightarrow> (fault + unit) \<times> CryptoManagerKmip" where
  "ManagerKmip_MarkDefault m providerID = MarkDefault m providerID"

definition ManagerKmip_SetDefaultKmsClusterId ::
  "CryptoManagerKmip \<Rightarrow> string \<Rightarrow> ManagedObjectReference option
     \<Rightarrow> (fault + unit) \<times> CryptoManagerKmip" where
  "ManagerKmip_SetDefaultKmsClusterId m providerID entity =
     SetDefaultKmsCluster m (if providerID \<noteq> '''' then Some providerID else None) entity"

section \<open>ListKmipServers and GetDefaultKmsCluster\<close>

text \<open>\<^verbatim>\<open>ListKmipServers\<close> and \<^verbatim>\<open>ListKeys\<close> compute the bound the same way:
  \<^verbatim>\<open>limit := len(...)\<close>, replaced by \<^verbatim>\<open>int(*req.Limit)\<close> when the request carries a
  limit with \<^verbatim>\<open>reqLimit >= 0 && reqLimit < limit\<close>. The limit is an \<^verbatim>\<open>*int32\<close>.\<close>

definition requestLimit :: "nat \<Rightarrow> 32 word option \<Rightarrow> nat" where
  "requestLimit len lim =
     (case lim of
        None \<Rightarrow> len
      | Some l \<Rightarrow> (if sint l \<ge> 0 \<and> sint l < int len then nat (sint l) else len))"

definition ListKmipServers :: "CryptoManagerKmip \<Rightarrow> 32 word option \<Rightarrow> KmipClusterInfo list" where
  "ListKmipServers m lim =
     (if length (KmipServers m) > 0
      then take (requestLimit (length (KmipServers m)) lim) (KmipServers m)
      else [])"

text \<open>The inner loop of \<^verbatim>\<open>GetDefaultKmsCluster\<close> has no \<^verbatim>\<open>break\<close>.\<close>

fun entityDefaultLoop ::
  "ManagedObjectReference \<Rightarrow> string \<Rightarrow> ManagedObjectReference list \<Rightarrow> string \<Rightarrow> string" where
  "entityDefaultLoop e cid [] providerID = providerID"
| "entityDefaultLoop e cid (y # ys) providerID =
     entityDefaultLoop e cid ys (if e = y then cid else providerID)"

fun getDefaultLoop ::
  "ManagedObjectReference option \<Rightarrow> KmipClusterInfo list \<Rightarrow> string \<Rightarrow> string" where
  "getDefaultLoop entity [] providerID = providerID"
| "getDefaultLoop entity (c # cs) providerID =
     (let p = (case entity of
                 Some e \<Rightarrow> entityDefaultLoop e (ClusterId c) (UseAsEntityDefault c) providerID
               | None \<Rightarrow> (if UseAsDefault c then ClusterId c else providerID))
      in if p \<noteq> '''' then p else getDefaultLoop entity cs p)"

text \<open>\<^verbatim>\<open>req.DefaultsToParent\<close> is a \<^verbatim>\<open>*bool\<close>.\<close>

definition GetDefaultKmsCluster ::
  "CryptoManagerKmip \<Rightarrow> ManagedObjectReference option \<Rightarrow> bool option \<Rightarrow> fault + string" where
  "GetDefaultKmsCluster m entity defaultsToParent =
     (let providerID = getDefaultLoop entity (KmipServers m) '''' in
      if providerID = '''' then Inl NoDefaultProvider else Inr providerID)"

text \<open>The client method \<^verbatim>\<open>ManagerKmip.GetDefaultKmsClusterID\<close>.\<close>

definition ManagerKmip_GetDefaultKmsClusterID ::
  "CryptoManagerKmip \<Rightarrow> ManagedObjectReference option \<Rightarrow> bool \<Rightarrow> fault + string" where
  "ManagerKmip_GetDefaultKmsClusterID m entity defaultsToParent =
     (case GetDefaultKmsCluster m entity (Some defaultsToParent) of
        Inl err \<Rightarrow> Inl err
      | Inr providerID \<Rightarrow> Inr providerID)"

section \<open>retrieveKmipServerStatusTask.Run\<close>

datatype ManagedEntityStatus = Gray | Green | Yellow | Red

record CryptoManagerKmipServerStatus =
  serverName :: string
  serverStatus :: ManagedEntityStatus

record CryptoManagerKmipClusterStatus =
  statusClusterId :: string
  statusManagementType :: string
  statusOverallStatus :: ManagedEntityStatus
  statusServers :: "CryptoManagerKmipServerStatus list"

text \<open>Second loop of \<^verbatim>\<open>Run\<close>: a selector without servers takes a copy of the servers of
  every registered cluster with its id, the last one staying.\<close>

fun expandServers :: "string \<Rightarrow> KmipClusterInfo list \<Rightarrow> KmipServerInfo list \<Rightarrow> KmipServerInfo list" where
  "expandServers gid [] servers = servers"
| "expandServers gid (c # cs) servers =
     expandServers gid cs (if gid = ClusterId c then Servers c else servers)"

definition expandSelector :: "KmipClusterInfo list \<Rightarrow> KmipClusterInfo \<Rightarrow> KmipClusterInfo" where
  "expandSelector registry g =
     (if length (Servers g) = 0
      then g\<lparr>Servers := expandServers (ClusterId g) registry (Servers g)\<rparr>
      else g)"

text \<open>Third loop nest, innermost first: indices \<^verbatim>\<open>l\<close>, \<^verbatim>\<open>k\<close>, \<^verbatim>\<open>j\<close>, \<^verbatim>\<open>i\<close>. Each function
  returns what its loop appends.\<close>

fun matchServerNames :: "KmipServerInfo \<Rightarrow> KmipServerInfo list \<Rightarrow> CryptoManagerKmipServerStatus list" where
  "matchServerNames s [] = []"
| "matchServerNames s (g # gs) =
     (if Name s = Name g then [\<lparr>serverName = Name s, serverStatus = Green\<rparr>] else [])
       @ matchServerNames s gs"

fun serverStatuses :: "KmipServerInfo list \<Rightarrow> KmipServerInfo list \<Rightarrow> CryptoManagerKmipServerStatus list" where
  "serverStatuses [] gs = []"
| "serverStatuses (s # ss) gs = matchServerNames s gs @ serverStatuses ss gs"

fun matchSelectors :: "KmipClusterInfo \<Rightarrow> KmipClusterInfo list \<Rightarrow> CryptoManagerKmipClusterStatus list" where
  "matchSelectors c [] = []"
| "matchSelectors c (g # gs) =
     (if ClusterId c = ClusterId g
      then [\<lparr>statusClusterId = ClusterId c,
             statusManagementType = ManagementType c,
             statusOverallStatus = Green,
             statusServers = serverStatuses (Servers c) (Servers g)\<rparr>]
      else [])
       @ matchSelectors c gs"

fun clusterStatuses :: "KmipClusterInfo list \<Rightarrow> KmipClusterInfo list \<Rightarrow> CryptoManagerKmipClusterStatus list" where
  "clusterStatuses [] get = []"
| "clusterStatuses (c # cs) get = matchSelectors c get @ clusterStatuses cs get"

definition retrieveKmipServerStatusTask_Run ::
  "CryptoManagerKmip \<Rightarrow> KmipClusterInfo list \<Rightarrow> CryptoManagerKmipClusterStatus list" where
  "retrieveKmipServerStatusTask_Run m get =
     (let get1 = (if length get = 0 then KmipServers m else get);
          get2 = map (expandSelector (KmipServers m)) get1
      in clusterStatuses (KmipServers m) get2)"

section \<open>Registering and unregistering clusters\<close>

text \<open>The loop of \<^verbatim>\<open>RegisterKmsCluster\<close> sets \<^verbatim>\<open>body.Fault_\<close> at every cluster with the
  requested id and does not stop.\<close>

fun registerClusterLoop :: "string \<Rightarrow> KmipClusterInfo list \<Rightarrow> fault option \<Rightarrow> fault option" where
  "registerClusterLoop cid [] flt = flt"
| "registerClusterLoop cid (c # cs) flt =
     registerClusterLoop cid cs (if cid = ClusterId c then Some AlreadyRegistered else flt)"

definition RegisterKmsCluster ::
  "CryptoManagerKmip \<Rightarrow> string \<Rightarrow> string \<Rightarrow> (fault + unit) \<times> CryptoManagerKmip" where
  "RegisterKmsCluster m cid managementType =
     (case registerClusterLoop cid (KmipServers m) None of
        Some flt \<Rightarrow> (Inl flt, m)
      | None \<Rightarrow>
          (Inr (),
           m\<lparr>KmipServers := KmipServers m @
                [\<lparr>ClusterId = cid, Servers = [], UseAsDefault = False,
                  ManagementType = managementType, UseAsEntityDefault = []\<rparr>]\<rparr>))"

text \<open>The loop of \<^verbatim>\<open>UnregisterKmsCluster\<close> keeps the last index with the requested id.\<close>

fun unregisterIndex :: "string \<Rightarrow> KmipClusterInfo list \<Rightarrow> nat \<Rightarrow> int \<Rightarrow> int" where
  "unregisterIndex cid [] i x = x"
| "unregisterIndex cid (c # cs) i x =
     unregisterIndex cid cs (Suc i) (if cid = ClusterId c then int i else x)"

definition UnregisterKmsCluster ::
  "CryptoManagerKmip \<Rightarrow> string \<Rightarrow> (fault + unit) \<times> CryptoManagerKmip" where
  "UnregisterKmsCluster m cid =
     (let x = unregisterIndex cid (KmipServers m) 0 (-1) in
      if x < 0 then (Inl InvalidClusterID, m)
      else (Inr (), m\<lparr>KmipServers := slices_Delete (KmipServers m) (nat x) (nat x + 1)\<rparr>))"

section \<open>Registering, updating and removing servers\<close>

text \<open>The requests carry \<^verbatim>\<open>Server.ClusterId.Id\<close> and \<^verbatim>\<open>Server.Info\<close>
  (\<^verbatim>\<open>ClusterId.Id\<close> and \<^verbatim>\<open>ServerName\<close> for the removal). Each outer loop stops at the
  first cluster with the requested id.\<close>

fun serverNameFound :: "string \<Rightarrow> KmipServerInfo list \<Rightarrow> bool" where
  "serverNameFound n [] = False"
| "serverNameFound n (s # ss) = (if n = Name s then True else serverNameFound n ss)"

fun registerServerLoop ::
  "string \<Rightarrow> KmipServerInfo \<Rightarrow> KmipClusterInfo list \<Rightarrow> KmipClusterInfo list \<times> bool \<times> bool" where
  "registerServerLoop cid info [] = ([], False, False)"
| "registerServerLoop cid info (c # cs) =
     (if cid = ClusterId c then
        (let alreadyRegistered = serverNameFound (Name info) (Servers c);
             c' = (if \<not> alreadyRegistered then c\<lparr>Servers := Servers c @ [info]\<rparr> else c)
         in (c' # cs, True, alreadyRegistered))
      else
        (let (cs', validClusterID, alreadyRegistered) = registerServerLoop cid info cs
         in (c # cs', validClusterID, alreadyRegistered)))"

definition RegisterKmipServer ::
  "CryptoManagerKmip \<Rightarrow> string \<Rightarrow> KmipServerInfo \<Rightarrow> (fault + unit) \<times> CryptoManagerKmip" where
  "RegisterKmipServer m cid info =
     (let (cs, validClusterID, alreadyRegistered) = registerServerLoop cid info (KmipServers m);
          m' = m\<lparr>KmipServers := cs\<rparr>
      in if \<not> validClusterID then (Inl InvalidClusterID, m')
         else if alreadyRegistered then (Inl AlreadyRegistered, m')
         else (Inr (), m'))"

fun serverIndex :: "string \<Rightarrow> KmipServerInfo list \<Rightarrow> nat \<Rightarrow> int" where
  "serverIndex n [] j = -1"
| "serverIndex n (s # ss) j = (if n = Name s then int j else serverIndex n ss (Suc j))"

fun removeServerLoop ::
  "string \<Rightarrow> string \<Rightarrow> KmipClusterInfo list \<Rightarrow> KmipClusterInfo list \<times> bool \<times> bool" where
  "removeServerLoop cid n [] = ([], False, False)"
| "removeServerLoop cid n (c # cs) =
     (if cid = ClusterId c then
        (let x = serverIndex n (Servers c) 0 in
         if x \<ge> 0
         then (c\<lparr>Servers := slices_Delete (Servers c) (nat x) (nat x + 1)\<rparr> # cs, True, True)
         else (c # cs, True, False))
      else
        (let (cs', validClusterID, validServerName) = removeServerLoop cid n cs
         in (c # cs', validClusterID, validServerName)))"

definition RemoveKmipServer ::
  "CryptoManagerKmip \<Rightarrow> string \<Rightarrow> string \<Rightarrow> (fault + unit) \<times> CryptoManagerKmip" where
  "RemoveKmipServer m cid n =
     (let (cs, validClusterID, validServerName) = removeServerLoop cid n (KmipServers m);
          m' = m\<lparr>KmipServers := cs\<rparr>
      in if \<not> validClusterID then (Inl InvalidClusterID, m')
         else if \<not> validServerName then (Inl InvalidServerName, m')
         else (Inr (), m'))"

fun updateServerInfo :: "KmipServerInfo \<Rightarrow> KmipServerInfo list \<Rightarrow> KmipServerInfo list \<times> bool" where
  "updateServerInfo info [] = ([], False)"
| "updateServerInfo info (s # ss) =
     (if Name info = Name s then (info # ss, True)
      else (let (ss', validServerName) = updateServerInfo info ss in (s # ss', validServerName)))"

fun updateServerLoop ::
  "string \<Rightarrow> KmipServerInfo \<Rightarrow> KmipClusterInfo list \<Rightarrow> KmipClusterInfo list \<times> bool \<times> bool" where
  "updateServerLoop cid info [] = ([], False, False)"
| "updateServerLoop cid info (c # cs) =
     (if cid = ClusterId c then
        (let (ss, validServerName) = updateServerInfo info (Servers c)
         in (c\<lparr>Servers := ss\<rparr> # cs, True, validServerName))
      else
        (let (cs', validClusterID, validServerName) = updateServerLoop cid info cs
         in (c # cs', validClusterID, validServerName)))"

definition UpdateKmipServer ::
  "CryptoManagerKmip \<Rightarrow> string \<Rightarrow> KmipServerInfo \<Rightarrow> (fault + unit) \<times> CryptoManagerKmip" where
  "UpdateKmipServer m cid info =
     (let (cs, validClusterID, validServerName) = updateServerLoop cid info (KmipServers m);
          m' = m\<lparr>KmipServers := cs\<rparr>
      in if \<not> validClusterID then (Inl InvalidClusterID, m')
         else if \<not> validServerName then (Inl InvalidServerName, m')
         else (Inr (), m'))"

section \<open>GenerateKey, ListKeys and IsValidKey\<close>

record CryptoKeyId =
  KeyId :: string
  ProviderId :: "string option"

record CryptoKeyResult =
  Success :: bool
  ResultKeyId :: CryptoKeyId

text \<open>\<^verbatim>\<open>var provider types.KmipClusterInfo\<close> starts as the zero value.\<close>

definition zeroKmipClusterInfo :: KmipClusterInfo where
  "zeroKmipClusterInfo =
     \<lparr>ClusterId = '''', Servers = [], UseAsDefault = False,
      ManagementType = '''', UseAsEntityDefault = []\<rparr>"

fun generateKeyLoop :: "string option \<Rightarrow> KmipClusterInfo list \<Rightarrow> KmipClusterInfo \<Rightarrow> KmipClusterInfo" where
  "generateKeyLoop keyProvider [] provider = provider"
| "generateKeyLoop keyProvider (c # cs) provider =
     (let p = (case keyProvider of
                 None \<Rightarrow> (if UseAsDefault c then c else provider)
               | Some i \<Rightarrow> (if i = ClusterId c then c else provider))
      in if ClusterId p \<noteq> '''' then p else generateKeyLoop keyProvider cs p)"

text \<open>The constant \<^verbatim>\<open>nativeKeyProvider\<close> is the string of
  \<^verbatim>\<open>types.KmipClusterInfoKmsManagementTypeNativeProvider\<close>, declared outside this file, and
  \<^verbatim>\<open>uuid.NewString()\<close> draws a random identifier: both are parameters, \<open>native\<close> and
  \<open>newKey\<close>.\<close>

definition GenerateKey ::
  "string \<Rightarrow> string \<Rightarrow> CryptoManagerKmip \<Rightarrow> string option
     \<Rightarrow> (fault + CryptoKeyResult) \<times> CryptoManagerKmip" where
  "GenerateKey native newKey m keyProvider =
     (let provider = generateKeyLoop keyProvider (KmipServers m) zeroKmipClusterInfo in
      if ClusterId provider = '''' then (Inl NoDefaultProvider, m)
      else if ManagementType provider = native then (Inl NativeProviderUnsupported, m)
      else
        (Inr \<lparr>Success = True,
              ResultKeyId = \<lparr>KeyId = newKey, ProviderId = Some (ClusterId provider)\<rparr>\<rparr>,
         m\<lparr>keyIDToProviderID := (keyIDToProviderID m)(newKey \<mapsto> ClusterId provider)\<rparr>))"

text \<open>Go visits the keys of a map once each, in an order it does not specify. The order of
  one traversal is the parameter \<open>keys\<close> of \<open>ListKeys\<close>; \<open>iterationOrder\<close> says that it is a
  traversal of the map. For such a list \<^verbatim>\<open>len(m.keyIDToProviderID)\<close> is its length and the
  value at a key \<open>k\<close> is \<open>Some providerID\<close>, the model of \<^verbatim>\<open>&KeyProviderId{Id: providerID}\<close>.\<close>

definition iterationOrder :: "string list \<Rightarrow> (string \<rightharpoonup> string) \<Rightarrow> bool" where
  "iterationOrder keys ledger = (distinct keys \<and> set keys = dom ledger)"

fun listKeysLoop :: "(string \<rightharpoonup> string) \<Rightarrow> nat \<Rightarrow> nat \<Rightarrow> string list \<Rightarrow> CryptoKeyId list" where
  "listKeysLoop ledger limit i [] = []"
| "listKeysLoop ledger limit i (k # ks) =
     (if i \<ge> limit then []
      else \<lparr>KeyId = k, ProviderId = ledger k\<rparr> # listKeysLoop ledger limit (i + 1) ks)"

definition ListKeys :: "string list \<Rightarrow> CryptoManagerKmip \<Rightarrow> 32 word option \<Rightarrow> CryptoKeyId list" where
  "ListKeys keys m lim =
     (if length keys > 0
      then listKeysLoop (keyIDToProviderID m) (requestLimit (length keys) lim) 0 keys
      else [])"

text \<open>The client method \<^verbatim>\<open>ManagerKmip.IsValidKey\<close> lists the keys without a limit and
  searches the result.\<close>

fun keyIdFound :: "string \<Rightarrow> CryptoKeyId list \<Rightarrow> bool" where
  "keyIdFound keyID [] = False"
| "keyIdFound keyID (k # ks) = (if KeyId k = keyID then True else keyIdFound keyID ks)"

definition ManagerKmip_IsValidKey :: "string list \<Rightarrow> CryptoManagerKmip \<Rightarrow> string \<Rightarrow> bool" where
  "ManagerKmip_IsValidKey keys m keyID = keyIdFound keyID (ListKeys keys m None)"

section \<open>Sequences of operations\<close>

datatype operation =
    OpRegisterKmsCluster string string
  | OpUnregisterKmsCluster string
  | OpRegisterKmipServer string KmipServerInfo
  | OpUpdateKmipServer string KmipServerInfo
  | OpRemoveKmipServer string string
  | OpSetDefaultKmsCluster "string option" "ManagedObjectReference option"
  | OpMarkDefault string
  | OpGenerateKey "string option" string

text \<open>The state an operation leaves, whether it answers with a result or with a fault.\<close>

fun perform :: "string \<Rightarrow> CryptoManagerKmip \<Rightarrow> operation \<Rightarrow> CryptoManagerKmip" where
  "perform native m (OpRegisterKmsCluster cid mt) = snd (RegisterKmsCluster m cid mt)"
| "perform native m (OpUnregisterKmsCluster cid) = snd (UnregisterKmsCluster m cid)"
| "perform native m (OpRegisterKmipServer cid info) = snd (RegisterKmipServer m cid info)"
| "perform native m (OpUpdateKmipServer cid info) = snd (UpdateKmipServer m cid info)"
| "perform native m (OpRemoveKmipServer cid n) = snd (RemoveKmipServer m cid n)"
| "perform native m (OpSetDefaultKmsCluster cid entity) = snd (SetDefaultKmsCluster m cid entity)"
| "perform native m (OpMarkDefault cid) = snd (MarkDefault m cid)"
| "perform native m (OpGenerateKey keyProvider newKey) =
     snd (GenerateKey native newKey m keyProvider)"

definition performAll :: "string \<Rightarrow> CryptoManagerKmip \<Rightarrow> operation list \<Rightarrow> CryptoManagerKmip" where
  "performAll native m ops = foldl (perform native) m ops"

text \<open>The data model of the registry: cluster ids are unique, and server names are unique
  within a cluster. The two default invariants: at most one cluster is the global default,
  and an entity is listed by at most one cluster.\<close>

definition uniqueClusterIds :: "KmipClusterInfo list \<Rightarrow> bool" where
  "uniqueClusterIds registry = distinct (map ClusterId registry)"

definition uniqueServerNames :: "KmipClusterInfo list \<Rightarrow> bool" where
  "uniqueServerNames registry = list_all (\<lambda>c. distinct (map Name (Servers c))) registry"

definition defaultCount :: "KmipClusterInfo list \<Rightarrow> nat" where
  "defaultCount registry = length (filter UseAsDefault registry)"

definition entityDefaultCount :: "ManagedObjectReference \<Rightarrow> KmipClusterInfo list \<Rightarrow> nat" where
  "entityDefaultCount e registry =
     length (filter (\<lambda>c. e \<in> set (UseAsEntityDefault c)) registry)"

text \<open>The invariant of the registry. An entity that no cluster lists is counted zero
  times, so only the listed entities are checked.\<close>

definition registryInvariant :: "KmipClusterInfo list \<Rightarrow> bool" where
  "registryInvariant registry =
     (uniqueClusterIds registry
      \<and> defaultCount registry \<le> 1
      \<and> list_all (\<lambda>e. entityDefaultCount e registry \<le> 1)
          (concat (map UseAsEntityDefault registry)))"

definition emptyManager :: CryptoManagerKmip where
  "emptyManager = \<lparr>KmipServers = [], keyIDToProviderID = Map.empty\<rparr>"

text \<open>The status record of a cluster with one healthy status for each of its servers.\<close>

definition healthyStatus :: "KmipClusterInfo \<Rightarrow> CryptoManagerKmipClusterStatus" where
  "healthyStatus c =
     \<lparr>statusClusterId = ClusterId c,
      statusManagementType = ManagementType c,
      statusOverallStatus = Green,
      statusServers = map (\<lambda>s. \<lparr>serverName = Name s, serverStatus = Green\<rparr>) (Servers c)\<rparr>"

section \<open>Properties of SetDefaultKmsCluster\<close>

lemma setDefaultStep_fst:
  "fst (setDefaultStep cid entity c v) = fst (setDefaultStep cid entity c False)"
  by (simp add: setDefaultStep_def Let_def split: option.splits)

lemma setDefaultStep_snd:
  "snd (setDefaultStep cid entity c v) = (v \<or> (hasClusterId cid \<and> Some (ClusterId c) = cid))"
  by (simp add: setDefaultStep_def Let_def split: option.splits)

lemma setDefaultLoop_fst:
  "fst (setDefaultLoop cid entity cs v) = map (\<lambda>c. fst (setDefaultStep cid entity c False)) cs"
proof (induction cs arbitrary: v)
  case Nil
  show ?case by simp
next
  case (Cons c cs)
  show ?case
    using Cons.IH setDefaultStep_fst [of cid entity c v] by (simp add: split_beta Let_def)
qed

lemma setDefaultLoop_snd:
  "snd (setDefaultLoop cid entity cs v) =
     (v \<or> (hasClusterId cid \<and> cid \<in> Some ` ClusterId ` set cs))"
proof (induction cs arbitrary: v)
  case Nil
  show ?case by simp
next
  case (Cons c cs)
  show ?case
    using Cons.IH setDefaultStep_snd [of cid entity c v] by (auto simp add: split_beta Let_def)
qed

lemma SetDefaultKmsCluster_eq:
  "SetDefaultKmsCluster m cid entity =
     (if hasClusterId cid \<and> cid \<notin> Some ` ClusterId ` set (KmipServers m)
      then Inl InvalidClusterID else Inr (),
      m\<lparr>KmipServers := map (\<lambda>c. fst (setDefaultStep cid entity c False)) (KmipServers m)\<rparr>)"
  using setDefaultLoop_fst [of cid entity "KmipServers m" False]
    setDefaultLoop_snd [of cid entity "KmipServers m" False]
  by (simp add: SetDefaultKmsCluster_def split_beta Let_def)

text \<open>
  Claim C2. A call of \<open>SetDefaultKmsCluster\<close> with a non-empty cluster id that no
  registered cluster has answers with the fault \<open>InvalidClusterID\<close>, and the state it leaves
  is the old one with the loop's mutation applied to every cluster, in registry order: the
  flag \<open>UseAsDefault\<close> is cleared (and \<open>UseAsEntityDefault\<close> emptied) everywhere, for
  every entity argument and so for \<open>entity = None\<close>. The failed call is not atomic.
\<close>

theorem SetDefaultKmsCluster_unregistered_id:
  assumes "cid \<noteq> ''''" and "cid \<notin> ClusterId ` set (KmipServers m)"
  shows "SetDefaultKmsCluster m (Some cid) entity =
           (Inl InvalidClusterID,
            m\<lparr>KmipServers :=
                 map (\<lambda>c. c\<lparr>UseAsDefault := False, UseAsEntityDefault := []\<rparr>) (KmipServers m)\<rparr>)
         \<and> list_all (\<lambda>c. \<not> UseAsDefault c)
             (KmipServers (snd (SetDefaultKmsCluster m (Some cid) None)))"
proof -
  have step: "map (\<lambda>c. fst (setDefaultStep (Some cid) e c False)) (KmipServers m)
      = map (\<lambda>c. c\<lparr>UseAsDefault := False, UseAsEntityDefault := []\<rparr>) (KmipServers m)" for e
    using assms by (intro map_cong) (auto simp: setDefaultStep_def hasClusterId_def)
  have res: "SetDefaultKmsCluster m (Some cid) e =
           (Inl InvalidClusterID,
            m\<lparr>KmipServers :=
                 map (\<lambda>c. c\<lparr>UseAsDefault := False, UseAsEntityDefault := []\<rparr>) (KmipServers m)\<rparr>)" for e
    using assms step [of e] by (auto simp add: SetDefaultKmsCluster_eq hasClusterId_def)
  have "list_all (\<lambda>c. \<not> UseAsDefault c)
          (KmipServers (snd (SetDefaultKmsCluster m (Some cid) None)))"
    by (simp add: res list_all_iff)
  with res [of entity] show ?thesis by simp
qed

theorem SetDefaultKmsCluster_unregistered_id_witness:
  "''pX'' \<noteq> ''''
   \<and> ''pX'' \<notin> ClusterId ` set (KmipServers
        \<lparr>KmipServers =
           [\<lparr>ClusterId = ''pA'', Servers = [], UseAsDefault = True,
             ManagementType = ''KmsServer'', UseAsEntityDefault = []\<rparr>],
         keyIDToProviderID = Map.empty\<rparr>)
   \<and> fst (SetDefaultKmsCluster
        \<lparr>KmipServers =
           [\<lparr>ClusterId = ''pA'', Servers = [], UseAsDefault = True,
             ManagementType = ''KmsServer'', UseAsEntityDefault = []\<rparr>],
         keyIDToProviderID = Map.empty\<rparr> (Some ''pX'') None) = Inl InvalidClusterID
   \<and> KmipServers (snd (SetDefaultKmsCluster
        \<lparr>KmipServers =
           [\<lparr>ClusterId = ''pA'', Servers = [], UseAsDefault = True,
             ManagementType = ''KmsServer'', UseAsEntityDefault = []\<rparr>],
         keyIDToProviderID = Map.empty\<rparr> (Some ''pX'') None))
      = [\<lparr>ClusterId = ''pA'', Servers = [], UseAsDefault = False,
          ManagementType = ''KmsServer'', UseAsEntityDefault = []\<rparr>]"
  using SetDefaultKmsCluster_unregistered_id
    [of "''pX''"
        "\<lparr>KmipServers =
           [\<lparr>ClusterId = ''pA'', Servers = [], UseAsDefault = True,
             ManagementType = ''KmsServer'', UseAsEntityDefault = []\<rparr>],
         keyIDToProviderID = Map.empty\<rparr>" None]
  by simp

text \<open>
  Claim C8. For every state and every cluster id string, the empty one and unregistered
  ones included, \<open>MarkDefault\<close> is \<open>SetDefaultKmsCluster\<close> with that id and no entity:
  the same answer and the same state. This holds for the simulator's handlers and for the
  client's methods, although the client's \<open>SetDefaultKmsClusterId\<close> sends no cluster id
  at all when the string is empty.
\<close>

theorem MarkDefault_is_SetDefault_without_entity:
  "MarkDefault m clusterId = SetDefaultKmsCluster m (Some clusterId) None
   \<and> ManagerKmip_MarkDefault m clusterId = ManagerKmip_SetDefaultKmsClusterId m clusterId None"
  by (simp add: MarkDefault_def ManagerKmip_MarkDefault_def
      ManagerKmip_SetDefaultKmsClusterId_def SetDefaultKmsCluster_eq hasClusterId_def
      setDefaultStep_def)

section \<open>Properties of the listing operations and of GetDefaultKmsCluster\<close>

text \<open>
  Claim C7. The answer of \<open>GetDefaultKmsCluster\<close>, the returned cluster id or the fault
  \<open>NoDefaultProvider\<close>, does not depend on \<open>defaultsToParent\<close>, for every state and
  every entity argument.
\<close>

theorem GetDefaultKmsCluster_ignores_defaultsToParent:
  "ManagerKmip_GetDefaultKmsClusterID m entity True
     = ManagerKmip_GetDefaultKmsClusterID m entity False
   \<and> GetDefaultKmsCluster m entity a = GetDefaultKmsCluster m entity b"
  by (simp add: ManagerKmip_GetDefaultKmsClusterID_def GetDefaultKmsCluster_def)

lemma listKeysLoop_eq:
  "listKeysLoop ledger limit i ks =
     map (\<lambda>k. \<lparr>KeyId = k, ProviderId = ledger k\<rparr>) (take (limit - i) ks)"
proof (induction ks arbitrary: i)
  case Nil
  show ?case by simp
next
  case (Cons k ks)
  show ?case
  proof (cases "i \<ge> limit")
    case True
    then show ?thesis by simp
  next
    case False
    then have "limit - i = Suc (limit - (i + 1))" by simp
    then show ?thesis using False Cons.IH [of "i + 1"] by simp
  qed
qed

lemma ListKeys_eq:
  "ListKeys keys m lim =
     map (\<lambda>k. \<lparr>KeyId = k, ProviderId = keyIDToProviderID m k\<rparr>)
       (take (requestLimit (length keys) lim) keys)"
  by (simp add: ListKeys_def listKeysLoop_eq)

lemma requestLimit_zero: "requestLimit len (Some 0) = 0"
  by (simp add: requestLimit_def)

lemma requestLimit_all:
  "sint l < 0 \<or> sint l \<ge> int len \<Longrightarrow> requestLimit len (Some l) = len"
  by (auto simp add: requestLimit_def)

text \<open>
  Claim C9. With the explicit limit 0, \<open>ListKmipServers\<close> and \<open>ListKeys\<close> return the
  empty list. With a negative limit, or one that is at least the number of stored entries,
  they return every entry: the whole registry, and one record for each key of the ledger
  in the order of the traversal.
\<close>

theorem list_limit_zero_and_out_of_range:
  assumes "iterationOrder keys (keyIDToProviderID m)"
  shows "ListKmipServers m (Some 0) = []
       \<and> ListKeys keys m (Some 0) = []
       \<and> (sint l < 0 \<or> sint l \<ge> int (length (KmipServers m))
            \<longrightarrow> ListKmipServers m (Some l) = KmipServers m)
       \<and> (sint l < 0 \<or> sint l \<ge> int (card (dom (keyIDToProviderID m)))
            \<longrightarrow> ListKeys keys m (Some l)
                  = map (\<lambda>k. \<lparr>KeyId = k, ProviderId = keyIDToProviderID m k\<rparr>) keys
                \<and> length (ListKeys keys m (Some l)) = card (dom (keyIDToProviderID m)))"
proof -
  have len: "card (dom (keyIDToProviderID m)) = length keys"
    using assms distinct_card [of keys] by (simp add: iterationOrder_def)
  have a: "ListKmipServers m (Some 0) = []"
    by (simp add: ListKmipServers_def requestLimit_zero)
  have b: "ListKeys keys m (Some 0) = []"
    by (simp add: ListKeys_eq requestLimit_zero)
  have c: "sint l < 0 \<or> sint l \<ge> int (length (KmipServers m))
            \<longrightarrow> ListKmipServers m (Some l) = KmipServers m"
    by (auto simp add: ListKmipServers_def requestLimit_all)
  have d: "sint l < 0 \<or> sint l \<ge> int (card (dom (keyIDToProviderID m)))
            \<longrightarrow> ListKeys keys m (Some l)
                  = map (\<lambda>k. \<lparr>KeyId = k, ProviderId = keyIDToProviderID m k\<rparr>) keys
                \<and> length (ListKeys keys m (Some l)) = card (dom (keyIDToProviderID m))"
    by (auto simp add: ListKeys_eq requestLimit_all len)
  from a b c d show ?thesis by blast
qed

theorem list_limit_zero_and_out_of_range_witness:
  "iterationOrder [''k2'', ''k1''] [''k1'' \<mapsto> ''pA'', ''k2'' \<mapsto> ''pA'']
   \<and> sint (-1 :: 32 word) < 0
   \<and> ListKmipServers
        \<lparr>KmipServers = [zeroKmipClusterInfo],
         keyIDToProviderID = [''k1'' \<mapsto> ''pA'', ''k2'' \<mapsto> ''pA'']\<rparr> (Some 0) = []
   \<and> ListKeys [''k2'', ''k1'']
        \<lparr>KmipServers = [zeroKmipClusterInfo],
         keyIDToProviderID = [''k1'' \<mapsto> ''pA'', ''k2'' \<mapsto> ''pA'']\<rparr> (Some 0) = []
   \<and> ListKmipServers
        \<lparr>KmipServers = [zeroKmipClusterInfo],
         keyIDToProviderID = [''k1'' \<mapsto> ''pA'', ''k2'' \<mapsto> ''pA'']\<rparr> (Some (-1))
      = [zeroKmipClusterInfo]
   \<and> ListKeys [''k2'', ''k1'']
        \<lparr>KmipServers = [zeroKmipClusterInfo],
         keyIDToProviderID = [''k1'' \<mapsto> ''pA'', ''k2'' \<mapsto> ''pA'']\<rparr> (Some (-1))
      = [\<lparr>KeyId = ''k2'', ProviderId = Some ''pA''\<rparr>,
         \<lparr>KeyId = ''k1'', ProviderId = Some ''pA''\<rparr>]"
proof -
  have h: "iterationOrder [''k2'', ''k1'']
     (keyIDToProviderID
        \<lparr>KmipServers = [zeroKmipClusterInfo],
         keyIDToProviderID = [''k1'' \<mapsto> ''pA'', ''k2'' \<mapsto> ''pA'']\<rparr>)"
    by (auto simp add: iterationOrder_def)
  have s: "sint (-1 :: 32 word) < 0" by simp
  show ?thesis
    using h s list_limit_zero_and_out_of_range [OF h, of "-1"] by simp
qed

section \<open>Setting an entity default\<close>

text \<open>
  Claim C1. Claimed: \<open>SetDefaultKmsCluster\<close> with a registered cluster id and an entity
  adds the entity to that cluster, removes it from the others, and leaves the flag
  \<open>UseAsDefault\<close> of every other cluster and their entity defaults for other entities
  unchanged. The code does not keep this. The registry below is reached from the empty one
  by registering \<open>pA\<close> and \<open>pB\<close>, marking \<open>pA\<close> as the default and setting \<open>pA\<close> as
  the default of \<open>vm-2\<close>. Setting \<open>pB\<close> as the default of \<open>vm-1\<close> then succeeds, and
  the branch for a cluster with another id clears \<open>UseAsDefault\<close> of \<open>pA\<close> and empties
  its \<open>UseAsEntityDefault\<close>, although the other branches of the same loop look at the
  entity and change only the flag or only that entity. Afterwards the query for the global
  default, which answered \<open>pA\<close>, answers with the fault \<open>NoDefaultProvider\<close>, and
  \<open>vm-2\<close> has no default any more.
\<close>

theorem SetDefaultKmsCluster_entity_clears_other_defaults:
  "KmipServers (performAll ''nativeProvider'' emptyManager
      [OpRegisterKmsCluster ''pA'' ''KmsServer'',
       OpRegisterKmsCluster ''pB'' ''KmsServer'',
       OpMarkDefault ''pA'',
       OpSetDefaultKmsCluster (Some ''pA'')
         (Some (ManagedObjectReference ''VirtualMachine'' ''vm-2''))])
     = [\<lparr>ClusterId = ''pA'', Servers = [], UseAsDefault = True, ManagementType = ''KmsServer'',
         UseAsEntityDefault = [ManagedObjectReference ''VirtualMachine'' ''vm-2'']\<rparr>,
        \<lparr>ClusterId = ''pB'', Servers = [], UseAsDefault = False, ManagementType = ''KmsServer'',
         UseAsEntityDefault = []\<rparr>]
   \<and> fst (SetDefaultKmsCluster
       \<lparr>KmipServers =
          [\<lparr>ClusterId = ''pA'', Servers = [], UseAsDefault = True, ManagementType = ''KmsServer'',
             UseAsEntityDefault = [ManagedObjectReference ''VirtualMachine'' ''vm-2'']\<rparr>,
           \<lparr>ClusterId = ''pB'', Servers = [], UseAsDefault = False, ManagementType = ''KmsServer'',
             UseAsEntityDefault = []\<rparr>],
        keyIDToProviderID = Map.empty\<rparr>
       (Some ''pB'') (Some (ManagedObjectReference ''VirtualMachine'' ''vm-1''))) = Inr ()
   \<and> KmipServers (snd (SetDefaultKmsCluster
       \<lparr>KmipServers =
          [\<lparr>ClusterId = ''pA'', Servers = [], UseAsDefault = True, ManagementType = ''KmsServer'',
             UseAsEntityDefault = [ManagedObjectReference ''VirtualMachine'' ''vm-2'']\<rparr>,
           \<lparr>ClusterId = ''pB'', Servers = [], UseAsDefault = False, ManagementType = ''KmsServer'',
             UseAsEntityDefault = []\<rparr>],
        keyIDToProviderID = Map.empty\<rparr>
       (Some ''pB'') (Some (ManagedObjectReference ''VirtualMachine'' ''vm-1''))))
     = [\<lparr>ClusterId = ''pA'', Servers = [], UseAsDefault = False, ManagementType = ''KmsServer'',
         UseAsEntityDefault = []\<rparr>,
        \<lparr>ClusterId = ''pB'', Servers = [], UseAsDefault = False, ManagementType = ''KmsServer'',
         UseAsEntityDefault = [ManagedObjectReference ''VirtualMachine'' ''vm-1'']\<rparr>]
   \<and> GetDefaultKmsCluster
       \<lparr>KmipServers =
          [\<lparr>ClusterId = ''pA'', Servers = [], UseAsDefault = True, ManagementType = ''KmsServer'',
             UseAsEntityDefault = [ManagedObjectReference ''VirtualMachine'' ''vm-2'']\<rparr>,
           \<lparr>ClusterId = ''pB'', Servers = [], UseAsDefault = False, ManagementType = ''KmsServer'',
             UseAsEntityDefault = []\<rparr>],
        keyIDToProviderID = Map.empty\<rparr> None None = Inr ''pA''
   \<and> GetDefaultKmsCluster
       (snd (SetDefaultKmsCluster
         \<lparr>KmipServers =
            [\<lparr>ClusterId = ''pA'', Servers = [], UseAsDefault = True, ManagementType = ''KmsServer'',
               UseAsEntityDefault = [ManagedObjectReference ''VirtualMachine'' ''vm-2'']\<rparr>,
             \<lparr>ClusterId = ''pB'', Servers = [], UseAsDefault = False, ManagementType = ''KmsServer'',
               UseAsEntityDefault = []\<rparr>],
          keyIDToProviderID = Map.empty\<rparr>
         (Some ''pB'') (Some (ManagedObjectReference ''VirtualMachine'' ''vm-1''))))
       None None = Inl NoDefaultProvider
   \<and> GetDefaultKmsCluster
       (snd (SetDefaultKmsCluster
         \<lparr>KmipServers =
            [\<lparr>ClusterId = ''pA'', Servers = [], UseAsDefault = True, ManagementType = ''KmsServer'',
               UseAsEntityDefault = [ManagedObjectReference ''VirtualMachine'' ''vm-2'']\<rparr>,
             \<lparr>ClusterId = ''pB'', Servers = [], UseAsDefault = False, ManagementType = ''KmsServer'',
               UseAsEntityDefault = []\<rparr>],
          keyIDToProviderID = Map.empty\<rparr>
         (Some ''pB'') (Some (ManagedObjectReference ''VirtualMachine'' ''vm-1''))))
       (Some (ManagedObjectReference ''VirtualMachine'' ''vm-2'')) None = Inl NoDefaultProvider"
  by (simp add: performAll_def emptyManager_def RegisterKmsCluster_def MarkDefault_def
      SetDefaultKmsCluster_def setDefaultStep_def hasClusterId_def GetDefaultKmsCluster_def)

section \<open>Properties of GenerateKey\<close>

text \<open>The loop of \<open>GenerateKey\<close> ends with the first cluster that the request selects and
  whose id is not empty, or with a provider whose id is empty when there is none.\<close>

lemma generateKeyLoop_find:
  "ClusterId p = '''' \<Longrightarrow>
   find (\<lambda>c. (case kp of None \<Rightarrow> UseAsDefault c | Some i \<Rightarrow> i = ClusterId c)
             \<and> ClusterId c \<noteq> '''') cs = Some c
   \<Longrightarrow> generateKeyLoop kp cs p = c"
proof (induction cs arbitrary: p)
  case Nil
  then show ?case by simp
next
  case (Cons d cs)
  then show ?case by (cases kp) (auto simp add: Let_def split: if_splits)
qed

lemma generateKeyLoop_none:
  "ClusterId p = '''' \<Longrightarrow>
   find (\<lambda>c. (case kp of None \<Rightarrow> UseAsDefault c | Some i \<Rightarrow> i = ClusterId c)
             \<and> ClusterId c \<noteq> '''') cs = None
   \<Longrightarrow> ClusterId (generateKeyLoop kp cs p) = ''''"
proof (induction cs arbitrary: p)
  case Nil
  then show ?case by simp
next
  case (Cons d cs)
  then show ?case by (cases kp) (auto simp add: Let_def split: if_splits)
qed

lemma generateKeyLoop_explicit_id:
  "ClusterId p = '''' \<Longrightarrow> ClusterId (generateKeyLoop (Some i) cs p) \<noteq> ''''
     \<Longrightarrow> ClusterId (generateKeyLoop (Some i) cs p) = i"
proof (induction cs arbitrary: p)
  case Nil
  then show ?case by simp
next
  case (Cons d cs)
  then show ?case by (auto simp add: Let_def split: if_splits)
qed

text \<open>When the request selects a cluster that is not native, the key is generated.\<close>

lemma GenerateKey_succeeds:
  assumes "find (\<lambda>c. (case kp of None \<Rightarrow> UseAsDefault c | Some i \<Rightarrow> i = ClusterId c)
                    \<and> ClusterId c \<noteq> '''') (KmipServers m) = Some c"
    and "ManagementType c \<noteq> native"
  shows "GenerateKey native newKey m kp =
           (Inr \<lparr>Success = True,
                 ResultKeyId = \<lparr>KeyId = newKey, ProviderId = Some (ClusterId c)\<rparr>\<rparr>,
            m\<lparr>keyIDToProviderID := (keyIDToProviderID m)(newKey \<mapsto> ClusterId c)\<rparr>)"
proof -
  have "generateKeyLoop kp (KmipServers m) zeroKmipClusterInfo = c"
    using assms(1) by (intro generateKeyLoop_find) (simp_all add: zeroKmipClusterInfo_def)
  moreover have "ClusterId c \<noteq> ''''"
    using assms(1) by (auto dest: find_Some_iff [THEN iffD1])
  ultimately show ?thesis
    using assms(2) by (simp add: GenerateKey_def)
qed

text \<open>
  Claim C4. Whenever \<open>GenerateKey\<close> resolves its provider, by the requested cluster id
  or else by the flag \<open>UseAsDefault\<close>, to a cluster whose management type is the native
  tag, it answers with the fault \<open>NativeProviderUnsupported\<close> and leaves the state, and
  so the key ledger, as it was. With a requested id the default flags play no part.
\<close>

theorem GenerateKey_native_provider:
  assumes "find (\<lambda>c. (case kp of None \<Rightarrow> UseAsDefault c | Some i \<Rightarrow> i = ClusterId c)
                    \<and> ClusterId c \<noteq> '''') (KmipServers m) = Some c"
    and "ManagementType c = native"
  shows "GenerateKey native newKey m kp = (Inl NativeProviderUnsupported, m)"
proof -
  have "generateKeyLoop kp (KmipServers m) zeroKmipClusterInfo = c"
    using assms(1) by (intro generateKeyLoop_find) (simp_all add: zeroKmipClusterInfo_def)
  moreover have "ClusterId c \<noteq> ''''"
    using assms(1) by (auto dest: find_Some_iff [THEN iffD1])
  ultimately show ?thesis
    using assms(2) by (simp add: GenerateKey_def)
qed

theorem GenerateKey_native_provider_witness:
  "find (\<lambda>c. (case Some ''pN'' of None \<Rightarrow> UseAsDefault c | Some i \<Rightarrow> i = ClusterId c)
            \<and> ClusterId c \<noteq> '''')
     (KmipServers
        \<lparr>KmipServers =
           [\<lparr>ClusterId = ''pA'', Servers = [], UseAsDefault = True,
             ManagementType = ''KmsServer'', UseAsEntityDefault = []\<rparr>,
            \<lparr>ClusterId = ''pN'', Servers = [], UseAsDefault = False,
             ManagementType = ''nativeProvider'', UseAsEntityDefault = []\<rparr>],
         keyIDToProviderID = Map.empty\<rparr>)
     = Some \<lparr>ClusterId = ''pN'', Servers = [], UseAsDefault = False,
             ManagementType = ''nativeProvider'', UseAsEntityDefault = []\<rparr>
   \<and> GenerateKey ''nativeProvider'' ''k1''
        \<lparr>KmipServers =
           [\<lparr>ClusterId = ''pA'', Servers = [], UseAsDefault = True,
             ManagementType = ''KmsServer'', UseAsEntityDefault = []\<rparr>,
            \<lparr>ClusterId = ''pN'', Servers = [], UseAsDefault = False,
             ManagementType = ''nativeProvider'', UseAsEntityDefault = []\<rparr>],
         keyIDToProviderID = Map.empty\<rparr>
        (Some ''pN'')
      = (Inl NativeProviderUnsupported,
         \<lparr>KmipServers =
           [\<lparr>ClusterId = ''pA'', Servers = [], UseAsDefault = True,
             ManagementType = ''KmsServer'', UseAsEntityDefault = []\<rparr>,
            \<lparr>ClusterId = ''pN'', Servers = [], UseAsDefault = False,
             ManagementType = ''nativeProvider'', UseAsEntityDefault = []\<rparr>],
         keyIDToProviderID = Map.empty\<rparr>)"
proof -
  have h: "find (\<lambda>c. (case Some ''pN'' of None \<Rightarrow> UseAsDefault c | Some i \<Rightarrow> i = ClusterId c)
            \<and> ClusterId c \<noteq> '''')
     (KmipServers
        \<lparr>KmipServers =
           [\<lparr>ClusterId = ''pA'', Servers = [], UseAsDefault = True,
             ManagementType = ''KmsServer'', UseAsEntityDefault = []\<rparr>,
            \<lparr>ClusterId = ''pN'', Servers = [], UseAsDefault = False,
             ManagementType = ''nativeProvider'', UseAsEntityDefault = []\<rparr>],
         keyIDToProviderID = Map.empty\<rparr>)
     = Some \<lparr>ClusterId = ''pN'', Servers = [], UseAsDefault = False,
             ManagementType = ''nativeProvider'', UseAsEntityDefault = []\<rparr>"
    by simp
  have t: "ManagementType \<lparr>ClusterId = ''pN'', Servers = [], UseAsDefault = False,
             ManagementType = ''nativeProvider'', UseAsEntityDefault = []\<rparr> = ''nativeProvider''"
    by simp
  show ?thesis
    using h GenerateKey_native_provider [OF h t, of "''k1''"] by simp
qed

section \<open>Generated keys are listed\<close>

lemma keyIdFound_iff: "keyIdFound keyID ks = (keyID \<in> KeyId ` set ks)"
  by (induction ks) auto

lemma ListKeys_None:
  "ListKeys keys m None = map (\<lambda>k. \<lparr>KeyId = k, ProviderId = keyIDToProviderID m k\<rparr>) keys"
  by (simp add: ListKeys_eq requestLimit_def)

lemma filter_key_map:
  "distinct keys \<Longrightarrow> k \<in> set keys \<Longrightarrow>
   length (filter (\<lambda>r. KeyId r = k) (map (\<lambda>k. \<lparr>KeyId = k, ProviderId = f k\<rparr>) keys)) = 1"
proof (induction keys)
  case Nil
  then show ?case by simp
next
  case (Cons a keys)
  show ?case
  proof (cases "a = k")
    case True
    then have "k \<notin> set keys" using Cons.prems by simp
    then have "filter (\<lambda>r. KeyId r = k) (map (\<lambda>k. \<lparr>KeyId = k, ProviderId = f k\<rparr>) keys) = []"
      by (auto simp add: filter_empty_conv)
    then show ?thesis using True by simp
  next
    case False
    then show ?thesis using Cons by simp
  qed
qed

text \<open>
  Claim C5. When \<open>GenerateKey\<close> with the cluster id \<open>X\<close> succeeds, the key id it returns
  is recorded against \<open>X\<close> in the ledger; afterwards \<open>IsValidKey\<close> holds of it, and the
  list that \<open>ListKeys\<close> returns without a limit has exactly one record with that key id,
  whatever the order in which the map is traversed. (Success itself, for a registered
  cluster that is not native, is lemma \<open>GenerateKey_succeeds\<close>.)
\<close>

theorem GenerateKey_key_is_listed_once:
  assumes gen: "GenerateKey native newKey m (Some X) = (Inr res, m')"
    and ord: "iterationOrder keys (keyIDToProviderID m')"
  shows "Success res
       \<and> ProviderId (ResultKeyId res) = Some X
       \<and> keyIDToProviderID m' (KeyId (ResultKeyId res)) = Some X
       \<and> ManagerKmip_IsValidKey keys m' (KeyId (ResultKeyId res))
       \<and> filter (\<lambda>r. KeyId r = KeyId (ResultKeyId res)) (ListKeys keys m' None)
           = [\<lparr>KeyId = KeyId (ResultKeyId res), ProviderId = Some X\<rparr>]"
proof -
  define p where "p = generateKeyLoop (Some X) (KmipServers m) zeroKmipClusterInfo"
  from gen have ne: "ClusterId p \<noteq> ''''" and nn: "ManagementType p \<noteq> native"
    by (auto simp add: GenerateKey_def p_def Let_def split: if_splits)
  have pid: "ClusterId p = X"
    unfolding p_def using ne unfolding p_def
    by (intro generateKeyLoop_explicit_id) (simp_all add: zeroKmipClusterInfo_def)
  from gen ne nn pid
  have res: "res = \<lparr>Success = True, ResultKeyId = \<lparr>KeyId = newKey, ProviderId = Some X\<rparr>\<rparr>"
    and m': "m' = m\<lparr>keyIDToProviderID := (keyIDToProviderID m)(newKey \<mapsto> X)\<rparr>"
    by (auto simp add: GenerateKey_def p_def [symmetric] Let_def)
  have led: "keyIDToProviderID m' newKey = Some X"
    by (simp add: m')
  then have mem: "newKey \<in> set keys" and dist: "distinct keys"
    using ord by (auto simp add: iterationOrder_def)
  have valid: "ManagerKmip_IsValidKey keys m' newKey"
    using mem
    by (force simp add: ManagerKmip_IsValidKey_def ListKeys_None keyIdFound_iff image_iff)
  have "length (filter (\<lambda>r. KeyId r = newKey) (ListKeys keys m' None)) = 1"
    unfolding ListKeys_None using dist mem by (rule filter_key_map)
  then obtain r where r: "filter (\<lambda>r. KeyId r = newKey) (ListKeys keys m' None) = [r]"
    by (cases "filter (\<lambda>r. KeyId r = newKey) (ListKeys keys m' None)") auto
  then have "r \<in> set (filter (\<lambda>r. KeyId r = newKey) (ListKeys keys m' None))"
    by simp
  then have "r = \<lparr>KeyId = newKey, ProviderId = Some X\<rparr>"
    using led by (auto simp add: ListKeys_None)
  with r have once: "filter (\<lambda>r. KeyId r = newKey) (ListKeys keys m' None)
      = [\<lparr>KeyId = newKey, ProviderId = Some X\<rparr>]"
    by simp
  show ?thesis using res led valid once by simp
qed

theorem GenerateKey_key_is_listed_once_witness:
  "GenerateKey ''nativeProvider'' ''k2''
     \<lparr>KmipServers =
        [\<lparr>ClusterId = ''pA'', Servers = [], UseAsDefault = False,
          ManagementType = ''KmsServer'', UseAsEntityDefault = []\<rparr>],
      keyIDToProviderID = [''k1'' \<mapsto> ''pA'']\<rparr> (Some ''pA'')
   = (Inr \<lparr>Success = True, ResultKeyId = \<lparr>KeyId = ''k2'', ProviderId = Some ''pA''\<rparr>\<rparr>,
      \<lparr>KmipServers =
        [\<lparr>ClusterId = ''pA'', Servers = [], UseAsDefault = False,
          ManagementType = ''KmsServer'', UseAsEntityDefault = []\<rparr>],
       keyIDToProviderID = [''k1'' \<mapsto> ''pA'', ''k2'' \<mapsto> ''pA'']\<rparr>)
   \<and> iterationOrder [''k2'', ''k1''] [''k1'' \<mapsto> ''pA'', ''k2'' \<mapsto> ''pA'']
   \<and> ManagerKmip_IsValidKey [''k2'', ''k1'']
       \<lparr>KmipServers =
        [\<lparr>ClusterId = ''pA'', Servers = [], UseAsDefault = False,
          ManagementType = ''KmsServer'', UseAsEntityDefault = []\<rparr>],
       keyIDToProviderID = [''k1'' \<mapsto> ''pA'', ''k2'' \<mapsto> ''pA'']\<rparr> ''k2''
   \<and> filter (\<lambda>r. KeyId r = ''k2'')
       (ListKeys [''k2'', ''k1'']
         \<lparr>KmipServers =
           [\<lparr>ClusterId = ''pA'', Servers = [], UseAsDefault = False,
             ManagementType = ''KmsServer'', UseAsEntityDefault = []\<rparr>],
          keyIDToProviderID = [''k1'' \<mapsto> ''pA'', ''k2'' \<mapsto> ''pA'']\<rparr> None)
     = [\<lparr>KeyId = ''k2'', ProviderId = Some ''pA''\<rparr>]"
proof -
  have g: "GenerateKey ''nativeProvider'' ''k2''
     \<lparr>KmipServers =
        [\<lparr>ClusterId = ''pA'', Servers = [], UseAsDefault = False,
          ManagementType = ''KmsServer'', UseAsEntityDefault = []\<rparr>],
      keyIDToProviderID = [''k1'' \<mapsto> ''pA'']\<rparr> (Some ''pA'')
   = (Inr \<lparr>Success = True, ResultKeyId = \<lparr>KeyId = ''k2'', ProviderId = Some ''pA''\<rparr>\<rparr>,
      \<lparr>KmipServers =
        [\<lparr>ClusterId = ''pA'', Servers = [], UseAsDefault = False,
          ManagementType = ''KmsServer'', UseAsEntityDefault = []\<rparr>],
       keyIDToProviderID = [''k1'' \<mapsto> ''pA'', ''k2'' \<mapsto> ''pA'']\<rparr>)"
    by (simp add: GenerateKey_def zeroKmipClusterInfo_def)
  have h: "iterationOrder [''k2'', ''k1'']
     (keyIDToProviderID
       \<lparr>KmipServers =
        [\<lparr>ClusterId = ''pA'', Servers = [], UseAsDefault = False,
          ManagementType = ''KmsServer'', UseAsEntityDefault = []\<rparr>],
       keyIDToProviderID = [''k1'' \<mapsto> ''pA'', ''k2'' \<mapsto> ''pA'']\<rparr>)"
    by (auto simp add: iterationOrder_def)
  show ?thesis
    using g h GenerateKey_key_is_listed_once [OF g h] by simp
qed

section \<open>Properties of the status query\<close>

lemma distinct_map_tail:
  "distinct (map f (d # cs)) \<Longrightarrow> c \<in> set cs \<Longrightarrow> f c \<noteq> f d"
  by (auto simp add: image_iff)

lemma expandServers_absent:
  "gid \<notin> ClusterId ` set cs \<Longrightarrow> expandServers gid cs servers = servers"
  by (induction cs arbitrary: servers) auto

lemma expandServers_present:
  "distinct (map ClusterId cs) \<Longrightarrow> c \<in> set cs
     \<Longrightarrow> expandServers (ClusterId c) cs servers = Servers c"
proof (induction cs arbitrary: servers)
  case Nil
  then show ?case by simp
next
  case (Cons d cs)
  show ?case
  proof (cases "c = d")
    case True
    then have "ClusterId c \<notin> ClusterId ` set cs" using Cons.prems by simp
    then show ?thesis using True by (simp add: expandServers_absent)
  next
    case False
    then have "c \<in> set cs" using Cons.prems by simp
    moreover have "ClusterId c \<noteq> ClusterId d"
      using Cons.prems(1) \<open>c \<in> set cs\<close> by (rule distinct_map_tail)
    ultimately show ?thesis using Cons by simp
  qed
qed

lemma expandSelector_registered:
  "distinct (map ClusterId cs) \<Longrightarrow> c \<in> set cs \<Longrightarrow> expandSelector cs c = c"
  by (simp add: expandSelector_def expandServers_present)

lemma expandSelector_ClusterId: "ClusterId (expandSelector cs g) = ClusterId g"
  by (simp add: expandSelector_def)

lemma matchServerNames_absent:
  "Name s \<notin> Name ` set gs \<Longrightarrow> matchServerNames s gs = []"
  by (induction gs) auto

lemma matchServerNames_present:
  "distinct (map Name gs) \<Longrightarrow> s \<in> set gs \<Longrightarrow>
     matchServerNames s gs = [\<lparr>serverName = Name s, serverStatus = Green\<rparr>]"
proof (induction gs)
  case Nil
  then show ?case by simp
next
  case (Cons g gs)
  show ?case
  proof (cases "s = g")
    case True
    then have "Name s \<notin> Name ` set gs" using Cons.prems by simp
    then show ?thesis using True by (simp add: matchServerNames_absent)
  next
    case False
    then have "s \<in> set gs" using Cons.prems by simp
    moreover have "Name s \<noteq> Name g"
      using Cons.prems(1) \<open>s \<in> set gs\<close> by (rule distinct_map_tail)
    ultimately show ?thesis using Cons by simp
  qed
qed

lemma serverStatuses_subset:
  "distinct (map Name gs) \<Longrightarrow> set ss \<subseteq> set gs \<Longrightarrow>
     serverStatuses ss gs = map (\<lambda>s. \<lparr>serverName = Name s, serverStatus = Green\<rparr>) ss"
  by (induction ss) (auto simp add: matchServerNames_present)

lemma matchSelectors_absent:
  "ClusterId c \<notin> ClusterId ` set gs \<Longrightarrow> matchSelectors c gs = []"
  by (induction gs) auto

lemma matchSelectors_present:
  "distinct (map ClusterId gs) \<Longrightarrow> c \<in> set gs \<Longrightarrow> distinct (map Name (Servers c)) \<Longrightarrow>
     matchSelectors c gs = [healthyStatus c]"
proof (induction gs)
  case Nil
  then show ?case by simp
next
  case (Cons g gs)
  show ?case
  proof (cases "c = g")
    case True
    then have "ClusterId c \<notin> ClusterId ` set gs" using Cons.prems by simp
    then show ?thesis
      using True Cons.prems(3)
      by (simp add: matchSelectors_absent serverStatuses_subset healthyStatus_def)
  next
    case False
    then have "c \<in> set gs" using Cons.prems by simp
    moreover have "ClusterId c \<noteq> ClusterId g"
      using Cons.prems(1) \<open>c \<in> set gs\<close> by (rule distinct_map_tail)
    ultimately show ?thesis using Cons by simp
  qed
qed

lemma clusterStatuses_subset:
  "distinct (map ClusterId gs) \<Longrightarrow> set cs \<subseteq> set gs \<Longrightarrow>
   list_all (\<lambda>c. distinct (map Name (Servers c))) cs \<Longrightarrow>
     clusterStatuses cs gs = map healthyStatus cs"
  by (induction cs) (auto simp add: matchSelectors_present)

text \<open>
  Claim C6. In a registry of the data model (cluster ids unique, server names unique within
  a cluster), the status query without selectors returns exactly one status record for each
  registered cluster, in registration order; the record carries the cluster's id and
  management type, the overall status green, and one green server status for each server
  of the cluster, none for a cluster without servers.
\<close>

theorem status_without_selectors:
  assumes "uniqueClusterIds (KmipServers m)" and "uniqueServerNames (KmipServers m)"
  shows "retrieveKmipServerStatusTask_Run m [] =
     map (\<lambda>c. \<lparr>statusClusterId = ClusterId c,
                statusManagementType = ManagementType c,
                statusOverallStatus = Green,
                statusServers =
                  map (\<lambda>s. \<lparr>serverName = Name s, serverStatus = Green\<rparr>) (Servers c)\<rparr>)
       (KmipServers m)"
proof -
  have "map (expandSelector (KmipServers m)) (KmipServers m) = KmipServers m"
    using assms(1) by (intro map_idI) (simp add: expandSelector_registered uniqueClusterIds_def)
  moreover have "clusterStatuses (KmipServers m) (KmipServers m)
      = map healthyStatus (KmipServers m)"
    using assms
    by (intro clusterStatuses_subset) (simp_all add: uniqueClusterIds_def uniqueServerNames_def)
  ultimately show ?thesis
    by (simp add: retrieveKmipServerStatusTask_Run_def healthyStatus_def [abs_def])
qed

theorem status_without_selectors_witness:
  "uniqueClusterIds
     [\<lparr>ClusterId = ''pA'',
       Servers = [\<lparr>Name = ''s1'', Address = ''10.0.0.1'', Port = 5696\<rparr>,
                  \<lparr>Name = ''s2'', Address = ''10.0.0.2'', Port = 5696\<rparr>],
       UseAsDefault = False, ManagementType = ''KmsServer'', UseAsEntityDefault = []\<rparr>,
      \<lparr>ClusterId = ''pB'', Servers = [], UseAsDefault = False,
       ManagementType = ''KmsServer'', UseAsEntityDefault = []\<rparr>]
   \<and> uniqueServerNames
     [\<lparr>ClusterId = ''pA'',
       Servers = [\<lparr>Name = ''s1'', Address = ''10.0.0.1'', Port = 5696\<rparr>,
                  \<lparr>Name = ''s2'', Address = ''10.0.0.2'', Port = 5696\<rparr>],
       UseAsDefault = False, ManagementType = ''KmsServer'', UseAsEntityDefault = []\<rparr>,
      \<lparr>ClusterId = ''pB'', Servers = [], UseAsDefault = False,
       ManagementType = ''KmsServer'', UseAsEntityDefault = []\<rparr>]
   \<and> retrieveKmipServerStatusTask_Run
     \<lparr>KmipServers =
       [\<lparr>ClusterId = ''pA'',
         Servers = [\<lparr>Name = ''s1'', Address = ''10.0.0.1'', Port = 5696\<rparr>,
                    \<lparr>Name = ''s2'', Address = ''10.0.0.2'', Port = 5696\<rparr>],
         UseAsDefault = False, ManagementType = ''KmsServer'', UseAsEntityDefault = []\<rparr>,
        \<lparr>ClusterId = ''pB'', Servers = [], UseAsDefault = False,
         ManagementType = ''KmsServer'', UseAsEntityDefault = []\<rparr>],
      keyIDToProviderID = Map.empty\<rparr> []
   = [\<lparr>statusClusterId = ''pA'', statusManagementType = ''KmsServer'',
       statusOverallStatus = Green,
       statusServers = [\<lparr>serverName = ''s1'', serverStatus = Green\<rparr>,
                        \<lparr>serverName = ''s2'', serverStatus = Green\<rparr>]\<rparr>,
      \<lparr>statusClusterId = ''pB'', statusManagementType = ''KmsServer'',
       statusOverallStatus = Green, statusServers = []\<rparr>]"
proof -
  have u: "uniqueClusterIds (KmipServers
     \<lparr>KmipServers =
       [\<lparr>ClusterId = ''pA'',
         Servers = [\<lparr>Name = ''s1'', Address = ''10.0.0.1'', Port = 5696\<rparr>,
                    \<lparr>Name = ''s2'', Address = ''10.0.0.2'', Port = 5696\<rparr>],
         UseAsDefault = False, ManagementType = ''KmsServer'', UseAsEntityDefault = []\<rparr>,
        \<lparr>ClusterId = ''pB'', Servers = [], UseAsDefault = False,
         ManagementType = ''KmsServer'', UseAsEntityDefault = []\<rparr>],
      keyIDToProviderID = Map.empty\<rparr>)"
    by (simp add: uniqueClusterIds_def)
  have n: "uniqueServerNames (KmipServers
     \<lparr>KmipServers =
       [\<lparr>ClusterId = ''pA'',
         Servers = [\<lparr>Name = ''s1'', Address = ''10.0.0.1'', Port = 5696\<rparr>,
                    \<lparr>Name = ''s2'', Address = ''10.0.0.2'', Port = 5696\<rparr>],
         UseAsDefault = False, ManagementType = ''KmsServer'', UseAsEntityDefault = []\<rparr>,
        \<lparr>ClusterId = ''pB'', Servers = [], UseAsDefault = False,
         ManagementType = ''KmsServer'', UseAsEntityDefault = []\<rparr>],
      keyIDToProviderID = Map.empty\<rparr>)"
    by (simp add: uniqueServerNames_def)
  show ?thesis
    using u n status_without_selectors [OF u n] by simp
qed

lemma matchSelectors_ids:
  "filter (\<lambda>s. statusClusterId s = X) (matchSelectors c gs) =
     (if ClusterId c = X then matchSelectors c gs else [])"
  by (induction gs) auto

lemma length_matchSelectors:
  "length (matchSelectors c gs) = length (filter (\<lambda>g. ClusterId g = ClusterId c) gs)"
  by (induction gs) auto

lemma count_clusterStatuses:
  "length (filter (\<lambda>s. statusClusterId s = X) (clusterStatuses cs gs)) =
     length (filter (\<lambda>c. ClusterId c = X) cs) * length (filter (\<lambda>g. ClusterId g = X) gs)"
  by (induction cs) (auto simp add: matchSelectors_ids length_matchSelectors)

text \<open>
  Claim C10. With a non-empty selector list, the number of status records that the query
  returns for a cluster id is the number of registered clusters with that id times the
  number of selectors with that id: one record for each pair of a registered cluster and
  a matching selector. A registered id that occurs \<open>k\<close> times among the selectors gets
  \<open>k\<close> records; repeated selectors are not merged.
\<close>

theorem status_repeated_selectors:
  assumes "get \<noteq> []"
  shows "length (filter (\<lambda>s. statusClusterId s = X) (retrieveKmipServerStatusTask_Run m get)) =
     length (filter (\<lambda>c. ClusterId c = X) (KmipServers m))
       * length (filter (\<lambda>g. ClusterId g = X) get)"
  using assms
  by (simp add: retrieveKmipServerStatusTask_Run_def count_clusterStatuses filter_map o_def
      expandSelector_ClusterId)

theorem status_repeated_selectors_witness:
  "[\<lparr>ClusterId = ''pA'', Servers = [], UseAsDefault = False, ManagementType = '''',
      UseAsEntityDefault = []\<rparr>,
    \<lparr>ClusterId = ''pA'', Servers = [], UseAsDefault = False, ManagementType = '''',
      UseAsEntityDefault = []\<rparr>] \<noteq> []
   \<and> length (filter (\<lambda>s. statusClusterId s = ''pA'')
       (retrieveKmipServerStatusTask_Run
          \<lparr>KmipServers =
             [\<lparr>ClusterId = ''pA'',
               Servers = [\<lparr>Name = ''s1'', Address = ''10.0.0.1'', Port = 5696\<rparr>],
               UseAsDefault = False, ManagementType = ''KmsServer'',
               UseAsEntityDefault = []\<rparr>],
           keyIDToProviderID = Map.empty\<rparr>
          [\<lparr>ClusterId = ''pA'', Servers = [], UseAsDefault = False, ManagementType = '''',
             UseAsEntityDefault = []\<rparr>,
           \<lparr>ClusterId = ''pA'', Servers = [], UseAsDefault = False, ManagementType = '''',
             UseAsEntityDefault = []\<rparr>])) = 2"
  using status_repeated_selectors
    [of "[\<lparr>ClusterId = ''pA'', Servers = [], UseAsDefault = False, ManagementType = '''',
            UseAsEntityDefault = []\<rparr>,
          \<lparr>ClusterId = ''pA'', Servers = [], UseAsDefault = False, ManagementType = '''',
            UseAsEntityDefault = []\<rparr>]"
        "''pA''"
        "\<lparr>KmipServers =
             [\<lparr>ClusterId = ''pA'',
               Servers = [\<lparr>Name = ''s1'', Address = ''10.0.0.1'', Port = 5696\<rparr>],
               UseAsDefault = False, ManagementType = ''KmsServer'',
               UseAsEntityDefault = []\<rparr>],
           keyIDToProviderID = Map.empty\<rparr>"]
  by simp

section \<open>The default invariants\<close>

lemma registryInvariant_iff:
  "registryInvariant r =
     (uniqueClusterIds r \<and> defaultCount r \<le> 1 \<and> (\<forall>e. entityDefaultCount e r \<le> 1))"
proof -
  have "entityDefaultCount e r \<le> 1"
    if "list_all (\<lambda>e. entityDefaultCount e r \<le> 1) (concat (map UseAsEntityDefault r))" for e
  proof (cases "e \<in> set (concat (map UseAsEntityDefault r))")
    case True
    with that show ?thesis by (auto simp add: list_all_iff)
  next
    case False
    then have "filter (\<lambda>c. e \<in> set (UseAsEntityDefault c)) r = []"
      by (auto simp add: filter_empty_conv)
    then show ?thesis by (simp add: entityDefaultCount_def)
  qed
  then show ?thesis
    unfolding registryInvariant_def by (auto simp add: list_all_iff)
qed

lemma invariant_projections:
  assumes "map ClusterId r' = map ClusterId r"
    and "map UseAsDefault r' = map UseAsDefault r"
    and "map UseAsEntityDefault r' = map UseAsEntityDefault r"
  shows "uniqueClusterIds r' = uniqueClusterIds r"
    and "defaultCount r' = defaultCount r"
    and "entityDefaultCount e r' = entityDefaultCount e r"
proof -
  show "uniqueClusterIds r' = uniqueClusterIds r"
    using assms(1) by (simp add: uniqueClusterIds_def)
  have "length (filter (\<lambda>b. b) (map UseAsDefault r')) = length (filter (\<lambda>b. b) (map UseAsDefault r))"
    using assms(2) by simp
  then show "defaultCount r' = defaultCount r"
    by (simp add: defaultCount_def filter_map o_def)
  have "length (filter (\<lambda>es. e \<in> set es) (map UseAsEntityDefault r'))
      = length (filter (\<lambda>es. e \<in> set es) (map UseAsEntityDefault r))"
    using assms(3) by simp
  then show "entityDefaultCount e r' = entityDefaultCount e r"
    by (simp add: entityDefaultCount_def filter_map o_def)
qed

lemma registerServerLoop_projections:
  "map ClusterId (fst (registerServerLoop cid info cs)) = map ClusterId cs
   \<and> map UseAsDefault (fst (registerServerLoop cid info cs)) = map UseAsDefault cs
   \<and> map UseAsEntityDefault (fst (registerServerLoop cid info cs)) = map UseAsEntityDefault cs"
  by (induction cs) (auto simp add: Let_def split_beta)

lemma removeServerLoop_projections:
  "map ClusterId (fst (removeServerLoop cid n cs)) = map ClusterId cs
   \<and> map UseAsDefault (fst (removeServerLoop cid n cs)) = map UseAsDefault cs
   \<and> map UseAsEntityDefault (fst (removeServerLoop cid n cs)) = map UseAsEntityDefault cs"
  by (induction cs) (auto simp add: Let_def split_beta)

lemma updateServerLoop_projections:
  "map ClusterId (fst (updateServerLoop cid info cs)) = map ClusterId cs
   \<and> map UseAsDefault (fst (updateServerLoop cid info cs)) = map UseAsDefault cs
   \<and> map UseAsEntityDefault (fst (updateServerLoop cid info cs)) = map UseAsEntityDefault cs"
  by (induction cs) (auto simp add: Let_def split_beta)

lemma KmipServers_RegisterKmipServer:
  "KmipServers (snd (RegisterKmipServer m cid info)) = fst (registerServerLoop cid info (KmipServers m))"
  by (simp add: RegisterKmipServer_def Let_def split_beta)

lemma KmipServers_RemoveKmipServer:
  "KmipServers (snd (RemoveKmipServer m cid n)) = fst (removeServerLoop cid n (KmipServers m))"
  by (simp add: RemoveKmipServer_def Let_def split_beta)

lemma KmipServers_UpdateKmipServer:
  "KmipServers (snd (UpdateKmipServer m cid info)) = fst (updateServerLoop cid info (KmipServers m))"
  by (simp add: UpdateKmipServer_def Let_def split_beta)

lemma KmipServers_GenerateKey:
  "KmipServers (snd (GenerateKey native newKey m kp)) = KmipServers m"
  by (simp add: GenerateKey_def Let_def)

lemma registerClusterLoop_None:
  "registerClusterLoop cid cs flt = None \<longleftrightarrow> flt = None \<and> cid \<notin> ClusterId ` set cs"
  by (induction cs arbitrary: flt) auto

lemma registryInvariant_RegisterKmsCluster:
  assumes "registryInvariant (KmipServers m)"
  shows "registryInvariant (KmipServers (snd (RegisterKmsCluster m cid mt)))"
proof (cases "registerClusterLoop cid (KmipServers m) None")
  case None
  then have "cid \<notin> ClusterId ` set (KmipServers m)" by (simp add: registerClusterLoop_None)
  then show ?thesis using assms None
    by (simp add: RegisterKmsCluster_def registryInvariant_iff uniqueClusterIds_def defaultCount_def entityDefaultCount_def)
next
  case (Some f)
  then show ?thesis using assms by (simp add: RegisterKmsCluster_def)
qed

lemma delete_one:
  "slices_Delete r i (Suc i) = r \<or> (\<exists>a x b. r = a @ x # b \<and> slices_Delete r i (Suc i) = a @ b)"
proof (cases "i < length r")
  case True
  then have "r = take i r @ r ! i # drop (Suc i) r" by (rule id_take_nth_drop)
  then show ?thesis unfolding slices_Delete_def by blast
next
  case False
  then show ?thesis by (simp add: slices_Delete_def)
qed

lemma registryInvariant_delete:
  assumes p: "registryInvariant r"
  shows "registryInvariant (slices_Delete r i (Suc i))"
proof -
  from delete_one [of r i] show ?thesis
  proof
    assume "slices_Delete r i (Suc i) = r"
    with p show ?thesis by simp
  next
    assume "\<exists>a x b. r = a @ x # b \<and> slices_Delete r i (Suc i) = a @ b"
    then obtain a x b where r: "r = a @ x # b" and d: "slices_Delete r i (Suc i) = a @ b" by blast
    have "defaultCount (a @ b) \<le> defaultCount r" by (simp add: r defaultCount_def)
    moreover have "entityDefaultCount e (a @ b) \<le> entityDefaultCount e r" for e
      by (simp add: r entityDefaultCount_def)
    moreover have "uniqueClusterIds (a @ b)" using p by (auto simp add: r registryInvariant_iff uniqueClusterIds_def)
    ultimately show ?thesis using p unfolding d registryInvariant_iff
      by (meson le_trans)
  qed
qed

lemma registryInvariant_UnregisterKmsCluster:
  "registryInvariant (KmipServers m) \<Longrightarrow> registryInvariant (KmipServers (snd (UnregisterKmsCluster m cid)))"
  by (simp add: UnregisterKmsCluster_def Let_def registryInvariant_delete)

lemma count_id_le_1: "distinct (map g r) \<Longrightarrow> length (filter (\<lambda>c. g c = X) r) \<le> 1"
proof (induction r)
  case Nil then show ?case by simp
next
  case (Cons a r)
  show ?case
  proof (cases "g a = X")
    case True
    then have "X \<notin> g ` set r" using Cons.prems by auto
    then have "filter (\<lambda>c. g c = X) r = []" by (auto simp add: filter_empty_conv)
    then show ?thesis using True by simp
  next
    case False then show ?thesis using Cons by simp
  qed
qed

lemma count_map_le:
  "(\<And>c. c \<in> set r \<Longrightarrow> Q (f c) \<Longrightarrow> R c) \<Longrightarrow> length (filter Q (map f r)) \<le> length (filter R r)"
  by (induction r) (auto simp add: le_SucI)

lemma set_slices_Delete: "set (slices_Delete s i j) \<subseteq> set s"
  unfolding slices_Delete_def using set_take_subset [of i s] set_drop_subset [of j s] by auto

lemma setDefaultStep_ClusterId: "ClusterId (fst (setDefaultStep cid entity c v)) = ClusterId c"
  by (simp add: setDefaultStep_def Let_def split: option.splits)

lemma setDefaultStep_explicit:
  assumes "hasClusterId cid"
  shows "UseAsDefault (fst (setDefaultStep cid entity c v)) \<Longrightarrow> Some (ClusterId c) = cid"
    and "e \<in> set (UseAsEntityDefault (fst (setDefaultStep cid entity c v))) \<Longrightarrow> Some (ClusterId c) = cid"
  using assms by (auto simp add: setDefaultStep_def Let_def split: option.splits if_splits)

lemma setDefaultStep_implicit:
  assumes "\<not> hasClusterId cid"
  shows "UseAsDefault (fst (setDefaultStep cid entity c v)) \<Longrightarrow> UseAsDefault c"
    and "e \<in> set (UseAsEntityDefault (fst (setDefaultStep cid entity c v))) \<Longrightarrow> e \<in> set (UseAsEntityDefault c)"
  using assms set_slices_Delete [of "UseAsEntityDefault c"]
  by (auto simp add: setDefaultStep_def Let_def split: option.splits if_splits)

lemma registryInvariant_SetDefaultKmsCluster:
  assumes p: "registryInvariant (KmipServers m)"
  shows "registryInvariant (KmipServers (snd (SetDefaultKmsCluster m cid entity)))"
proof -
  define r where "r = KmipServers m"
  define f where "f = (\<lambda>c. fst (setDefaultStep cid entity c False))"
  have r': "KmipServers (snd (SetDefaultKmsCluster m cid entity)) = map f r"
    by (simp add: SetDefaultKmsCluster_eq f_def r_def)
  have ids: "map ClusterId (map f r) = map ClusterId r"
    by (simp add: f_def setDefaultStep_ClusterId)
  have d: "distinct (map ClusterId r)" using p by (simp add: registryInvariant_iff uniqueClusterIds_def r_def)
  have u: "uniqueClusterIds (map f r)"
    unfolding uniqueClusterIds_def ids by (rule d)
  have "defaultCount (map f r) \<le> 1 \<and> (\<forall>e. entityDefaultCount e (map f r) \<le> 1)"
  proof (cases "hasClusterId cid")
    case True
    then obtain X where X: "cid = Some X" by (cases cid) (auto simp add: hasClusterId_def)
    have one: "length (filter (\<lambda>c. ClusterId c = X) r) \<le> 1" using d by (rule count_id_le_1)
    have "defaultCount (map f r) \<le> length (filter (\<lambda>c. ClusterId c = X) r)"
      unfolding defaultCount_def
      by (rule count_map_le) (use setDefaultStep_explicit(1) [OF True] X in \<open>auto simp add: f_def\<close>)
    moreover have "entityDefaultCount e (map f r) \<le> length (filter (\<lambda>c. ClusterId c = X) r)" for e
      unfolding entityDefaultCount_def
      by (rule count_map_le) (use setDefaultStep_explicit(2) [OF True] X in \<open>auto simp add: f_def\<close>)
    ultimately show ?thesis using one by (meson le_trans)
  next
    case False
    have "defaultCount (map f r) \<le> defaultCount r"
      unfolding defaultCount_def
      by (rule count_map_le) (use setDefaultStep_implicit(1) [OF False] in \<open>auto simp add: f_def\<close>)
    moreover have "entityDefaultCount e (map f r) \<le> entityDefaultCount e r" for e
      unfolding entityDefaultCount_def
      by (rule count_map_le) (use setDefaultStep_implicit(2) [OF False] in \<open>auto simp add: f_def\<close>)
    ultimately show ?thesis using p unfolding registryInvariant_iff r_def by (meson le_trans)
  qed
  with u show ?thesis unfolding r' registryInvariant_iff by simp
qed

lemma registryInvariant_projections:
  assumes "map ClusterId r' = map ClusterId r
   \<and> map UseAsDefault r' = map UseAsDefault r
   \<and> map UseAsEntityDefault r' = map UseAsEntityDefault r"
  shows "registryInvariant r' = registryInvariant r"
  using invariant_projections [of r' r] assms by (simp add: registryInvariant_iff)

lemma registryInvariant_perform: "registryInvariant (KmipServers m) \<Longrightarrow> registryInvariant (KmipServers (perform native m op))"
proof (cases op)
  case (OpRegisterKmsCluster cid mt)
  assume "registryInvariant (KmipServers m)"
  then show ?thesis
    unfolding OpRegisterKmsCluster
    by (simp add: registryInvariant_RegisterKmsCluster)
next
  case (OpUnregisterKmsCluster cid)
  assume "registryInvariant (KmipServers m)"
  then show ?thesis
    unfolding OpUnregisterKmsCluster
    by (simp add: registryInvariant_UnregisterKmsCluster)
next
  case (OpRegisterKmipServer cid info)
  assume "registryInvariant (KmipServers m)"
  then show ?thesis
    unfolding OpRegisterKmipServer
    by (simp add: KmipServers_RegisterKmipServer registryInvariant_projections [OF registerServerLoop_projections])
next
  case (OpUpdateKmipServer cid info)
  assume "registryInvariant (KmipServers m)"
  then show ?thesis
    unfolding OpUpdateKmipServer
    by (simp add: KmipServers_UpdateKmipServer registryInvariant_projections [OF updateServerLoop_projections])
next
  case (OpRemoveKmipServer cid n)
  assume "registryInvariant (KmipServers m)"
  then show ?thesis
    unfolding OpRemoveKmipServer
    by (simp add: KmipServers_RemoveKmipServer registryInvariant_projections [OF removeServerLoop_projections])
next
  case (OpSetDefaultKmsCluster cid entity)
  assume "registryInvariant (KmipServers m)"
  then show ?thesis
    unfolding OpSetDefaultKmsCluster
    by (simp add: registryInvariant_SetDefaultKmsCluster)
next
  case (OpMarkDefault cid)
  assume "registryInvariant (KmipServers m)"
  then show ?thesis
    unfolding OpMarkDefault
    by (simp add: MarkDefault_def registryInvariant_SetDefaultKmsCluster)
next
  case (OpGenerateKey kp newKey)
  assume "registryInvariant (KmipServers m)"
  then show ?thesis
    unfolding OpGenerateKey
    by (simp add: KmipServers_GenerateKey)
qed

text \<open>
  Claim C3. From a registry that satisfies the invariant (cluster ids unique, as in the
  data model; at most one global default; every entity listed by at most one cluster),
  and so from the empty registry, every sequence of \<open>RegisterKmsCluster\<close>,
  \<open>UnregisterKmsCluster\<close>, \<open>RegisterKmipServer\<close>, \<open>UpdateKmipServer\<close>,
  \<open>RemoveKmipServer\<close>, \<open>SetDefaultKmsCluster\<close>, \<open>MarkDefault\<close> and \<open>GenerateKey\<close>
  calls, failed ones included, leads to a registry where at most one cluster has
  \<open>UseAsDefault\<close> set and each entity is in \<open>UseAsEntityDefault\<close> of at most one cluster.
\<close>

theorem default_invariants_preserved:
  assumes "registryInvariant (KmipServers m)"
  shows "registryInvariant (KmipServers (performAll native m ops))
       \<and> defaultCount (KmipServers (performAll native m ops)) \<le> 1
       \<and> (\<forall>e. entityDefaultCount e (KmipServers (performAll native m ops)) \<le> 1)"
proof -
  have "registryInvariant (KmipServers (foldl (perform native) m ops))"
    using assms by (induction ops arbitrary: m) (simp_all add: registryInvariant_perform)
  then show ?thesis
    by (simp add: performAll_def registryInvariant_iff)
qed

theorem default_invariants_preserved_witness:
  "registryInvariant (KmipServers emptyManager)
   \<and> KmipServers (performAll ''nativeProvider'' emptyManager
        [OpRegisterKmsCluster ''pA'' ''KmsServer'',
         OpRegisterKmsCluster ''pB'' ''KmsServer'',
         OpMarkDefault ''pA'',
         OpSetDefaultKmsCluster (Some ''pA'') (Some (ManagedObjectReference ''VirtualMachine'' ''vm-1'')),
         OpMarkDefault ''pB'',
         OpGenerateKey None ''k1''])
     = [\<lparr>ClusterId = ''pA'', Servers = [], UseAsDefault = False,
         ManagementType = ''KmsServer'', UseAsEntityDefault = []\<rparr>,
        \<lparr>ClusterId = ''pB'', Servers = [], UseAsDefault = True,
         ManagementType = ''KmsServer'', UseAsEntityDefault = []\<rparr>]
   \<and> defaultCount (KmipServers (performAll ''nativeProvider'' emptyManager
        [OpRegisterKmsCluster ''pA'' ''KmsServer'',
         OpRegisterKmsCluster ''pB'' ''KmsServer'',
         OpMarkDefault ''pA'',
         OpSetDefaultKmsCluster (Some ''pA'') (Some (ManagedObjectReference ''VirtualMachine'' ''vm-1'')),
         OpMarkDefault ''pB'',
         OpGenerateKey None ''k1''])) \<le> 1"
proof -
  have h: "registryInvariant (KmipServers emptyManager)"
    by (simp add: registryInvariant_def emptyManager_def uniqueClusterIds_def defaultCount_def)
  have r: "KmipServers (performAll ''nativeProvider'' emptyManager
        [OpRegisterKmsCluster ''pA'' ''KmsServer'',
         OpRegisterKmsCluster ''pB'' ''KmsServer'',
         OpMarkDefault ''pA'',
         OpSetDefaultKmsCluster (Some ''pA'') (Some (ManagedObjectReference ''VirtualMachine'' ''vm-1'')),
         OpMarkDefault ''pB'',
         OpGenerateKey None ''k1''])
     = [\<lparr>ClusterId = ''pA'', Servers = [], UseAsDefault = False,
         ManagementType = ''KmsServer'', UseAsEntityDefault = []\<rparr>,
        \<lparr>ClusterId = ''pB'', Servers = [], UseAsDefault = True,
         ManagementType = ''KmsServer'', UseAsEntityDefault = []\<rparr>]"
    by (simp add: performAll_def emptyManager_def RegisterKmsCluster_def MarkDefault_def
        SetDefaultKmsCluster_def setDefaultStep_def hasClusterId_def GenerateKey_def
        zeroKmipClusterInfo_def)
  show ?thesis
    using h r default_invariants_preserved [OF h, of "''nativeProvider''"
        "[OpRegisterKmsCluster ''pA'' ''KmsServer'',
         OpRegisterKmsCluster ''pB'' ''KmsServer'',
         OpMarkDefault ''pA'',
         OpSetDefaultKmsCluster (Some ''pA'') (Some (ManagedObjectReference ''VirtualMachine'' ''vm-1'')),
         OpMarkDefault ''pB'',
         OpGenerateKey None ''k1'']"]
    by simp
qed

section \<open>Reachable registries are well formed\<close>

text \<open>The hypotheses on the registry used above are facts of every state that the
  operations can reach from the empty registry: cluster ids stay unique, and so do the
  server names within each cluster.\<close>

lemma serverNameFound_iff: "serverNameFound n ss = (n \<in> Name ` set ss)"
  by (induction ss) auto

lemma updateServerInfo_names: "map Name (fst (updateServerInfo info ss)) = map Name ss"
  by (induction ss) (auto simp add: split_beta)

lemma distinct_slices_Delete: "distinct (map f s) \<Longrightarrow> distinct (map f (slices_Delete s i (Suc i)))"
  using delete_one [of s i] by auto

lemma registerServerLoop_names:
  "list_all (\<lambda>c. distinct (map Name (Servers c))) cs \<Longrightarrow>
   list_all (\<lambda>c. distinct (map Name (Servers c))) (fst (registerServerLoop cid info cs))"
  by (induction cs) (auto simp add: Let_def split_beta serverNameFound_iff)

lemma removeServerLoop_names:
  "list_all (\<lambda>c. distinct (map Name (Servers c))) cs \<Longrightarrow>
   list_all (\<lambda>c. distinct (map Name (Servers c))) (fst (removeServerLoop cid n cs))"
  by (induction cs) (auto simp add: Let_def split_beta distinct_slices_Delete)

lemma updateServerLoop_names:
  "list_all (\<lambda>c. distinct (map Name (Servers c))) cs \<Longrightarrow>
   list_all (\<lambda>c. distinct (map Name (Servers c))) (fst (updateServerLoop cid info cs))"
  by (induction cs) (auto simp add: Let_def split_beta updateServerInfo_names)

lemma setDefaultStep_Servers: "Servers (fst (setDefaultStep cid entity c v)) = Servers c"
  by (simp add: setDefaultStep_def Let_def split: option.splits)

lemma uniqueServerNames_perform:
  "uniqueServerNames (KmipServers m) \<Longrightarrow> uniqueServerNames (KmipServers (perform native m op))"
proof (cases op)
  case (OpRegisterKmsCluster cid mt)
  assume "uniqueServerNames (KmipServers m)"
  then show ?thesis unfolding OpRegisterKmsCluster
    by (simp add: RegisterKmsCluster_def uniqueServerNames_def split: option.splits)
next
  case (OpUnregisterKmsCluster cid)
  assume "uniqueServerNames (KmipServers m)"
  then show ?thesis unfolding OpUnregisterKmsCluster
    using set_slices_Delete [of "KmipServers m"]
    by (auto simp add: UnregisterKmsCluster_def uniqueServerNames_def Let_def list_all_iff)
next
  case (OpRegisterKmipServer cid info)
  assume "uniqueServerNames (KmipServers m)"
  then show ?thesis unfolding OpRegisterKmipServer
    by (simp add: KmipServers_RegisterKmipServer uniqueServerNames_def registerServerLoop_names)
next
  case (OpUpdateKmipServer cid info)
  assume "uniqueServerNames (KmipServers m)"
  then show ?thesis unfolding OpUpdateKmipServer
    by (simp add: KmipServers_UpdateKmipServer uniqueServerNames_def updateServerLoop_names)
next
  case (OpRemoveKmipServer cid n)
  assume "uniqueServerNames (KmipServers m)"
  then show ?thesis unfolding OpRemoveKmipServer
    by (simp add: KmipServers_RemoveKmipServer uniqueServerNames_def removeServerLoop_names)
next
  case (OpSetDefaultKmsCluster cid entity)
  assume "uniqueServerNames (KmipServers m)"
  then show ?thesis unfolding OpSetDefaultKmsCluster
    by (simp add: SetDefaultKmsCluster_eq uniqueServerNames_def list_all_iff setDefaultStep_Servers)
next
  case (OpMarkDefault cid)
  assume "uniqueServerNames (KmipServers m)"
  then show ?thesis unfolding OpMarkDefault
    by (simp add: MarkDefault_def SetDefaultKmsCluster_eq uniqueServerNames_def list_all_iff setDefaultStep_Servers)
next
  case (OpGenerateKey kp newKey)
  assume "uniqueServerNames (KmipServers m)"
  then show ?thesis unfolding OpGenerateKey by (simp add: KmipServers_GenerateKey)
qed

lemma reachable_registry_wellformed:
  "uniqueClusterIds (KmipServers (performAll native emptyManager ops))
   \<and> uniqueServerNames (KmipServers (performAll native emptyManager ops))"
proof -
  have "registryInvariant (KmipServers m) \<and> uniqueServerNames (KmipServers m) \<Longrightarrow>
        registryInvariant (KmipServers (foldl (perform native) m ops))
        \<and> uniqueServerNames (KmipServers (foldl (perform native) m ops))" for m
    by (induction ops arbitrary: m) (simp_all add: registryInvariant_perform uniqueServerNames_perform)
  moreover have "registryInvariant (KmipServers emptyManager) \<and> uniqueServerNames (KmipServers emptyManager)"
    by (simp add: registryInvariant_def emptyManager_def uniqueClusterIds_def defaultCount_def uniqueServerNames_def)
  ultimately show ?thesis
    by (simp add: performAll_def registryInvariant_iff)
qed

end
